theory Spec2Isabelle
  imports Main "HOL-Library.List_Lexorder" "HOL-Library.Char_ord"
begin

section \<open>The QR code login system: data model\<close>

text \<open>
  The program keeps its state in one SQLite file with two tables (\<^verbatim>\<open>users_dao.py\<close>,
  \<^verbatim>\<open>users_table\<close> and \<^verbatim>\<open>logins_table\<close>):
  \<^verbatim>\<open>
  Users (code TEXT PRIMARY KEY NOT NULL UNIQUE, firstName TEXT NOT NULL,
         lastName TEXT NOT NULL, email TEXT NOT NULL, status TEXT)
  Logins(timestamp TEXT PRIMARY KEY NOT NULL, logoutTime TEXT, userCode TEXT NOT NULL,
         FOREIGN KEY(userCode) REFERENCES Users(code))
  \<close>
  A table is the list of its rows in insertion order; a nullable column is an
  \<open>option\<close>. A text is the list of its UTF-8 bytes, which the engine's default collation
  orders bytewise, as the lexicographic order on \<open>string\<close> does. Every column has TEXT affinity, so a value is the text the engine stores
  (the float of \<^verbatim>\<open>time.time()\<close> that \<^verbatim>\<open>log_qr_activity\<close> passes as a timestamp is
  stored as its text). \<^verbatim>\<open>Users.connect\<close> never switches foreign-key enforcement on,
  so the engine does not check \<^verbatim>\<open>userCode\<close> against \<^verbatim>\<open>Users\<close>.
\<close>

record user =
  code :: string
  firstName :: string
  lastName :: string
  email :: string
  status :: "string option"

record login_row =
  timestamp :: string
  logoutTime :: "string option"
  userCode :: string

record database =
  Users :: "user list"
  Logins :: "login_row list"

text \<open>
  The exceptions that leave the modelled functions: the \<^verbatim>\<open>Exception\<close> that
  \<^verbatim>\<open>handle_sqlite_error\<close> raises for an \<^verbatim>\<open>sqlite3.Error\<close>, the \<^verbatim>\<open>TypeError\<close> of
  subscripting \<^verbatim>\<open>None\<close>, the \<^verbatim>\<open>IndexError\<close> of indexing an empty array on two axes,
  the \<^verbatim>\<open>UnboundLocalError\<close> of reading a local that was never assigned, and a failure
  of an external collaborator (the QR image writer or the OpenCV window calls).
\<close>

datatype error = SQLiteError | TypeError | IndexError | UnboundLocalError | ExternalError

text \<open>The database file before any row is written: \<^verbatim>\<open>make_users\<close> and \<^verbatim>\<open>make_logins\<close>
  create both tables empty (\<^verbatim>\<open>CREATE TABLE IF NOT EXISTS\<close>).\<close>

definition empty_database :: database where
  "empty_database = \<lparr>Users = [], Logins = []\<rparr>"

section \<open>The user directory and the ledger: class \<^verbatim>\<open>Users\<close>\<close>

text \<open>
  \<^verbatim>\<open>add_user\<close>: \<^verbatim>\<open>INSERT OR IGNORE INTO Users VALUES (...)\<close>, commit, then
  \<^verbatim>\<open>make_qr(code, filename)\<close>. A row whose code is already a key is ignored. The
  image writer runs after the commit; \<open>make_qr_ok\<close> says whether it returns or raises
  (its exception is not an \<^verbatim>\<open>sqlite3.Error\<close>, so it leaves \<^verbatim>\<open>add_user\<close> with the row
  already stored).
\<close>

definition add_user ::
  "bool \<Rightarrow> string \<Rightarrow> string \<Rightarrow> string \<Rightarrow> string \<Rightarrow> string option \<Rightarrow> database
    \<Rightarrow> (error + unit) \<times> database" where
  "add_user make_qr_ok c first_name last_name mail st db =
     (let db' = (if c \<in> set (map code (Users db)) then db
                 else db\<lparr>Users := Users db @
                        [\<lparr>code = c, firstName = first_name, lastName = last_name,
                          email = mail, status = st\<rparr>]\<rparr>)
      in if make_qr_ok then (Inr (), db') else (Inl ExternalError, db'))"

text \<open>
  \<^verbatim>\<open>login\<close>: \<^verbatim>\<open>INSERT INTO Logins(timestamp, userCode) VALUES (...)\<close>. The primary key
  rejects a timestamp that is already stored (\<^verbatim>\<open>sqlite3.IntegrityError\<close>, re-raised by
  \<^verbatim>\<open>handle_sqlite_error\<close>); otherwise the row is appended with \<^verbatim>\<open>logoutTime\<close> null.
\<close>

definition login :: "string \<Rightarrow> string \<Rightarrow> database \<Rightarrow> (error + unit) \<times> database" where
  "login ts uc db =
     (if ts \<in> set (map timestamp (Logins db)) then (Inl SQLiteError, db)
      else (Inr (), db\<lparr>Logins := Logins db @
                         [\<lparr>timestamp = ts, logoutTime = None, userCode = uc\<rparr>]\<rparr>))"

text \<open>
  \<^verbatim>\<open>logout\<close>: \<^verbatim>\<open>UPDATE Logins SET logoutTime = ? WHERE userCode = ? AND logoutTime IS NULL\<close>.
  Every row of the user that is still open gets the logout time; when there is none the
  statement updates nothing and still succeeds.
\<close>

definition close_row :: "string \<Rightarrow> string \<Rightarrow> login_row \<Rightarrow> login_row" where
  "close_row uc lt r =
     (if userCode r = uc \<and> logoutTime r = None then r\<lparr>logoutTime := Some lt\<rparr> else r)"

definition logout :: "string \<Rightarrow> string \<Rightarrow> database \<Rightarrow> (error + unit) \<times> database" where
  "logout uc lt db = (Inr (), db\<lparr>Logins := map (close_row uc lt) (Logins db)\<rparr>)"

text \<open>\<^verbatim>\<open>get_info\<close>: \<^verbatim>\<open>SELECT * FROM Users WHERE code=?\<close> and \<^verbatim>\<open>fetchone()\<close>: the row, or
  \<^verbatim>\<open>None\<close> when no row has the code.\<close>

definition get_info :: "string \<Rightarrow> database \<Rightarrow> user option" where
  "get_info c db = find (\<lambda>u. code u = c) (Users db)"

text \<open>
  The whitelist is a numpy array of fixed-width strings. Such an array pads every entry
  with NUL characters up to the common width, so an entry is read back without its
  trailing NULs (\<open>strip_nul\<close>), and the test \<^verbatim>\<open>x in array\<close>, which is
  \<^verbatim>\<open>(array == x).any()\<close>, compares \<open>x\<close> with the entries up to trailing NULs
  (\<open>np_contains\<close>).
\<close>

definition strip_nul :: "string \<Rightarrow> string" where
  "strip_nul s = rev (dropWhile (\<lambda>ch. ch = CHR 0x00) (rev s))"

definition np_contains :: "string list \<Rightarrow> string \<Rightarrow> bool" where
  "np_contains arr x = (strip_nul x \<in> set (map strip_nul arr))"

text \<open>
  \<^verbatim>\<open>get_whitelist\<close>: \<^verbatim>\<open>SELECT code FROM Users\<close>, \<^verbatim>\<open>np.array(codes)[:, 0]\<close>. The engine
  answers the query from the index of the primary key, so the codes arrive in ascending
  order; the array then holds them without trailing NULs. With no row the array has one
  axis and the two-axis index raises \<^verbatim>\<open>IndexError\<close>.
\<close>

definition get_whitelist :: "database \<Rightarrow> error + string list" where
  "get_whitelist db =
     (case Users db of
        [] \<Rightarrow> Inl IndexError
      | _ # _ \<Rightarrow> Inr (map strip_nul (sort (map code (Users db)))))"

text \<open>
  \<^verbatim>\<open>set_status\<close>: reads the row with \<^verbatim>\<open>get_info\<close> and tests \<^verbatim>\<open>user[4]\<close>. For a code
  with no row \<^verbatim>\<open>user\<close> is \<^verbatim>\<open>None\<close> and \<^verbatim>\<open>user[4]\<close> raises \<^verbatim>\<open>TypeError\<close>, which the
  \<^verbatim>\<open>except sqlite3.Error\<close> clause does not catch. The two \<^verbatim>\<open>UPDATE Users SET status=...
  WHERE code=?\<close> statements are \<open>update_status\<close>. The last branch prints a message and
  falls off the end of the function, returning \<^verbatim>\<open>None\<close>.
\<close>

definition update_status :: "string \<Rightarrow> string \<Rightarrow> database \<Rightarrow> database" where
  "update_status c s db =
     db\<lparr>Users := map (\<lambda>u. if code u = c then u\<lparr>status := Some s\<rparr> else u) (Users db)\<rparr>"

definition set_status :: "string \<Rightarrow> database \<Rightarrow> (error + string option) \<times> database" where
  "set_status c db =
     (case get_info c db of
        None \<Rightarrow> (Inl TypeError, db)
      | Some u \<Rightarrow>
          if status u = Some ''Inactive'' \<or> status u = None
          then (Inr (Some ''Active''), update_status c ''Active'' db)
          else if status u = Some ''Active''
          then (Inr (Some ''Inactive''), update_status c ''Inactive'' db)
          else (Inr None, db))"

text \<open>
  \<^verbatim>\<open>Users.__init__\<close>: creates the tables and adds the two built-in users, each with
  status \<^verbatim>\<open>None\<close>. An exception of the first \<^verbatim>\<open>add_user\<close> ends the constructor.
\<close>

definition Users_init :: "bool \<Rightarrow> bool \<Rightarrow> database \<Rightarrow> (error + unit) \<times> database" where
  "Users_init qr_ok1 qr_ok2 db =
     (case add_user qr_ok1 ''h65ld310'' ''John'' ''Buck'' ''jbuck@gmail.com'' None db of
        (Inl e, db1) \<Rightarrow> (Inl e, db1)
      | (Inr _, db1) \<Rightarrow>
          add_user qr_ok2 ''d08ae169'' ''Jane'' ''Doe'' ''jdoe@gmail.com'' None db1)"

section \<open>The scanner: class \<^verbatim>\<open>QrLogger\<close>\<close>

text \<open>
  A \<^verbatim>\<open>QrLogger\<close> holds the whitelist it read once in its constructor
  (\<^verbatim>\<open>self.authorized_users\<close>); the database behind \<^verbatim>\<open>self.users\<close> is the state that is
  passed along.
\<close>

record QrLogger =
  authorized_users :: "string list"

definition QrLogger_init :: "bool \<Rightarrow> bool \<Rightarrow> database \<Rightarrow> (error + QrLogger) \<times> database" where
  "QrLogger_init qr_ok1 qr_ok2 db =
     (case Users_init qr_ok1 qr_ok2 db of
        (Inl e, db1) \<Rightarrow> (Inl e, db1)
      | (Inr _, db1) \<Rightarrow>
          (case get_whitelist db1 of
             Inl e \<Rightarrow> (Inl e, db1)
           | Inr wl \<Rightarrow> (Inr \<lparr>authorized_users = wl\<rparr>, db1)))"

text \<open>
  The list \<^verbatim>\<open>info\<close> that \<^verbatim>\<open>process_qr\<close> returns is \<^verbatim>\<open>[frame]\<close> or
  \<^verbatim>\<open>[frame, data, time.time()]\<close>: the frame and, for an accepted scan, the code and the
  timestamp.
\<close>

type_synonym 'f info = "'f \<times> (string \<times> string) option"

text \<open>
  \<^verbatim>\<open>process_qr\<close>. The decoder \<^verbatim>\<open>pyzbar.decode\<close> is the parameter \<open>decode\<close>: \<open>None\<close>
  when it raises, else the payloads it found, each \<open>Some\<close> text or \<open>None\<close> for bytes
  that \<^verbatim>\<open>data.decode()\<close> rejects. \<open>now\<close> is the value of \<^verbatim>\<open>time.time()\<close>. The result
  carries the list \<^verbatim>\<open>recent_accesses\<close>, which the method appends to in place. The
  whitelist test \<^verbatim>\<open>data.decode() in self.authorized_users\<close> is the array's test
  \<open>np_contains\<close>; the comparison with \<^verbatim>\<open>recent_accesses[-1]\<close> is between two Python
  strings and exact.
  When the decoder raises, \<^verbatim>\<open>info\<close> was never assigned and the handler's
  \<^verbatim>\<open>return info\<close> raises; when \<^verbatim>\<open>data.decode()\<close> raises, the handler returns
  \<^verbatim>\<open>[frame]\<close>.
\<close>

definition process_qr ::
  "QrLogger \<Rightarrow> ('f \<Rightarrow> string option list option) \<Rightarrow> string \<Rightarrow> 'f \<Rightarrow> string list
    \<Rightarrow> (error + 'f info) \<times> string list" where
  "process_qr self decode now frame recent_accesses =
     (case decode frame of
        None \<Rightarrow> (Inl UnboundLocalError, recent_accesses)
      | Some qr_info \<Rightarrow>
          (case qr_info of
             [] \<Rightarrow> (Inr (frame, None), recent_accesses)
           | qr # _ \<Rightarrow>
               (case qr of
                  None \<Rightarrow> (Inr (frame, None), recent_accesses)
                | Some data \<Rightarrow>
                    if np_contains (authorized_users self) data
                    then if recent_accesses = [] \<or> last recent_accesses \<noteq> data
                         then (Inr (frame, Some (data, now)), recent_accesses @ [data])
                         else (Inr (frame, None), recent_accesses)
                    else (Inr (frame, None), recent_accesses))))"

text \<open>
  \<^verbatim>\<open>log_qr_activity\<close>. For an accepted scan it calls \<^verbatim>\<open>set_status\<close>, then
  \<^verbatim>\<open>show_validation\<close> (OpenCV window and image file; \<open>shown\<close> says whether it returns or
  raises), then \<^verbatim>\<open>login\<close> when the returned status is \<^verbatim>\<open>"Active"\<close> and \<^verbatim>\<open>logout\<close>
  otherwise. Each of the three database calls commits on its own connection, so an
  exception leaves what the earlier calls wrote.
\<close>

definition log_qr_activity ::
  "bool \<Rightarrow> 'f info \<Rightarrow> database \<Rightarrow> (error + 'f) \<times> database" where
  "log_qr_activity shown info db =
     (case info of
        (frame, None) \<Rightarrow> (Inr frame, db)
      | (frame, Some (c, ts)) \<Rightarrow>
          (case set_status c db of
             (Inl e, db1) \<Rightarrow> (Inl e, db1)
           | (Inr st, db1) \<Rightarrow>
               if st = Some ''Active''
               then if shown
                    then (case login ts c db1 of
                            (Inl e, db2) \<Rightarrow> (Inl e, db2)
                          | (Inr _, db2) \<Rightarrow> (Inr frame, db2))
                    else (Inl ExternalError, db1)
               else if shown
                    then (case logout c ts db1 of
                            (Inl e, db2) \<Rightarrow> (Inl e, db2)
                          | (Inr _, db2) \<Rightarrow> (Inr frame, db2))
                    else (Inl ExternalError, db1)))"

text \<open>
  One pass of the \<^verbatim>\<open>while True\<close> loop of \<^verbatim>\<open>run\<close>:
  \<^verbatim>\<open>frame = self.log_qr_activity(self.process_qr(frame, recent_accesses))\<close>.
  A \<open>tick\<close> is what the outside world supplies for the pass: the camera frame, the clock
  and whether the validation window could be shown. \<open>run\<close> has no handler, so an
  exception ends the loop with the state as it is; \<open>run_frames\<close> is the loop over the
  frames that arrive before the quit key.
\<close>

record 'f tick =
  frame :: 'f
  now :: string
  shown :: bool

definition run_step ::
  "QrLogger \<Rightarrow> ('f \<Rightarrow> string option list option) \<Rightarrow> 'f tick \<Rightarrow> string list \<times> database
    \<Rightarrow> (error + 'f) \<times> (string list \<times> database)" where
  "run_step self decode t s =
     (case process_qr self decode (now t) (frame t) (fst s) of
        (Inl e, recent) \<Rightarrow> (Inl e, (recent, snd s))
      | (Inr info, recent) \<Rightarrow>
          (case log_qr_activity (shown t) info (snd s) of
             (r, db') \<Rightarrow> (r, (recent, db'))))"

fun run_frames ::
  "QrLogger \<Rightarrow> ('f \<Rightarrow> string option list option) \<Rightarrow> 'f tick list \<Rightarrow> string list \<times> database
    \<Rightarrow> (error + unit) \<times> (string list \<times> database)" where
  "run_frames self decode [] s = (Inr (), s)"
| "run_frames self decode (t # ts) s =
     (case run_step self decode t s of
        (Inl e, s') \<Rightarrow> (Inl e, s')
      | (Inr _, s') \<Rightarrow> run_frames self decode ts s')"

section \<open>Observations on the ledger\<close>

text \<open>The number of rows of \<^verbatim>\<open>Logins\<close> for a user code whose \<^verbatim>\<open>logoutTime\<close> is null.\<close>

definition open_sessions :: "string \<Rightarrow> database \<Rightarrow> nat" where
  "open_sessions c db =
     length (filter (\<lambda>r. userCode r = c \<and> logoutTime r = None) (Logins db))"

text \<open>The stored status of a code: \<open>None\<close> when the code has no row, \<open>Some None\<close> when
  the row's status is null.\<close>

definition status_of :: "string \<Rightarrow> database \<Rightarrow> string option option" where
  "status_of c db = map_option status (get_info c db)"

text \<open>The database that \<^verbatim>\<open>Users()\<close> leaves on a new file: the two built-in users,
  both with status null, and no ledger row.\<close>

definition seeded_database :: database where
  "seeded_database =
     \<lparr>Users =
        [\<lparr>code = ''h65ld310'', firstName = ''John'', lastName = ''Buck'',
          email = ''jbuck@gmail.com'', status = None\<rparr>,
         \<lparr>code = ''d08ae169'', firstName = ''Jane'', lastName = ''Doe'',
          email = ''jdoe@gmail.com'', status = None\<rparr>],
      Logins = []\<rparr>"

text \<open>What a frame shows, read off the decoder's answer as \<^verbatim>\<open>process_qr\<close> reads it
  (only the first payload counts): the text \<open>c\<close>, or no code at all.\<close>

definition decodes_to :: "('f \<Rightarrow> string option list option) \<Rightarrow> 'f \<Rightarrow> string \<Rightarrow> bool" where
  "decodes_to decode f c =
     (case decode f of Some (Some d # _) \<Rightarrow> d = c | _ \<Rightarrow> False)"

definition no_code :: "('f \<Rightarrow> string option list option) \<Rightarrow> 'f \<Rightarrow> bool" where
  "no_code decode f = (decode f = Some [])"

text \<open>
  The consistency between the two tables that the scanning loop maintains: every open
  ledger row belongs to a user whose stored status is \<^verbatim>\<open>Active\<close> and who has no second
  open row.
\<close>

definition session_inv :: "database \<Rightarrow> bool" where
  "session_inv db =
     (\<forall>r \<in> set (Logins db). logoutTime r = None \<longrightarrow>
        status_of (userCode r) db = Some (Some ''Active'') \<and>
        open_sessions (userCode r) db \<le> 1)"

text \<open>Every stored status is null, \<^verbatim>\<open>Active\<close> or \<^verbatim>\<open>Inactive\<close>.\<close>

definition status_ok :: "database \<Rightarrow> bool" where
  "status_ok db =
     (\<forall>u \<in> set (Users db). status u \<in> {None, Some ''Active'', Some ''Inactive''})"

section \<open>Basic facts about the tables\<close>

lemma Users_init_new_file:
  "Users_init True True empty_database = (Inr (), seeded_database)"
  by (simp add: Users_init_def add_user_def empty_database_def seeded_database_def)

lemma Logins_update_status: "Logins (update_status c s db) = Logins db"
  by (simp add: update_status_def)

lemma find_map_status:
  "find (\<lambda>u. code u = c') (map (\<lambda>u. if code u = c then u\<lparr>status := Some s\<rparr> else u) us) =
     (if c' = c then map_option (\<lambda>u. u\<lparr>status := Some s\<rparr>) (find (\<lambda>u. code u = c) us)
      else find (\<lambda>u. code u = c') us)"
  by (induction us) auto

lemma get_info_update_status:
  "get_info c' (update_status c s db) =
     (if c' = c then map_option (\<lambda>u. u\<lparr>status := Some s\<rparr>) (get_info c db)
      else get_info c' db)"
  by (simp add: get_info_def update_status_def find_map_status)

lemma open_sessions_update_status:
  "open_sessions c' (update_status c s db) = open_sessions c' db"
  by (simp add: open_sessions_def update_status_def)

lemma get_info_code: "get_info c db = Some u \<Longrightarrow> code u = c"
  by (auto simp: get_info_def find_Some_iff)

lemma get_info_None_iff: "get_info c db = None \<longleftrightarrow> c \<notin> set (map code (Users db))"
  by (auto simp: get_info_def find_None_iff)

lemma filter_open_close_same:
  "filter (\<lambda>r. userCode r = c \<and> logoutTime r = None) (map (close_row c lt) rs) = []"
  by (induction rs) (simp_all add: close_row_def)

lemma filter_open_close_other:
  "c' \<noteq> c \<Longrightarrow>
   length (filter (\<lambda>r. userCode r = c' \<and> logoutTime r = None) (map (close_row c lt) rs)) =
   length (filter (\<lambda>r. userCode r = c' \<and> logoutTime r = None) rs)"
  by (induction rs) (simp_all add: close_row_def)

lemma close_row_no_open:
  "length (filter (\<lambda>r. userCode r = c \<and> logoutTime r = None) rs) = 0 \<Longrightarrow>
   map (close_row c lt) rs = rs"
  by (induction rs) (auto simp: close_row_def split: if_splits)

lemma open_sessions_logout:
  "open_sessions c' (snd (logout c lt db)) = (if c' = c then 0 else open_sessions c' db)"
  using filter_open_close_same[of c lt "Logins db"]
    filter_open_close_other[of c' c lt "Logins db"]
  by (cases "c' = c") (simp_all add: open_sessions_def logout_def)

lemma open_sessions_login:
  "ts \<notin> set (map timestamp (Logins db)) \<Longrightarrow>
   open_sessions c' (snd (login ts c db)) = open_sessions c' db + (if c' = c then 1 else 0)"
  by (simp add: open_sessions_def login_def)

lemma login_duplicate: "ts \<in> set (map timestamp (Logins db)) \<Longrightarrow> login ts c db = (Inl SQLiteError, db)"
  by (simp add: login_def)

section \<open>The ledger's logout\<close>

text \<open>
  Claim C6, as amended. \<^verbatim>\<open>Users.logout\<close> always succeeds and leaves the directory alone:
  it sets the logout time of every row of the user code whose logout time is null, so
  that the code has no open row afterwards; when the code has no open row, the database
  is returned unchanged and no error is raised.
\<close>

theorem logout_closes_every_open_row:
  "fst (logout uc lt db) = Inr () \<and>
   Users (snd (logout uc lt db)) = Users db \<and>
   Logins (snd (logout uc lt db)) =
     map (\<lambda>r. if userCode r = uc \<and> logoutTime r = None then r\<lparr>logoutTime := Some lt\<rparr> else r)
       (Logins db) \<and>
   open_sessions uc (snd (logout uc lt db)) = 0 \<and>
   (open_sessions uc db = 0 \<longrightarrow> logout uc lt db = (Inr (), db))"
  using close_row_no_open[of uc "Logins db" lt] open_sessions_logout[of uc uc lt db]
  by (auto simp: logout_def open_sessions_def close_row_def[abs_def])

theorem logout_closes_every_open_row_witness:
  "open_sessions ''h65ld310''
     (seeded_database\<lparr>Logins :=
        [\<lparr>timestamp = ''1689700000.5'', logoutTime = None, userCode = ''h65ld310''\<rparr>]\<rparr>) = 1 \<and>
   Logins (snd (logout ''h65ld310'' ''1689700060.25''
     (seeded_database\<lparr>Logins :=
        [\<lparr>timestamp = ''1689700000.5'', logoutTime = None, userCode = ''h65ld310''\<rparr>]\<rparr>))) =
     [\<lparr>timestamp = ''1689700000.5'', logoutTime = Some ''1689700060.25'',
       userCode = ''h65ld310''\<rparr>] \<and>
   open_sessions ''d08ae169'' seeded_database = 0 \<and>
   logout ''d08ae169'' ''1689700060.25'' seeded_database = (Inr (), seeded_database)"
  using logout_closes_every_open_row[of "''h65ld310''" "''1689700060.25''"
      "seeded_database\<lparr>Logins :=
        [\<lparr>timestamp = ''1689700000.5'', logoutTime = None, userCode = ''h65ld310''\<rparr>]\<rparr>"]
    logout_closes_every_open_row[of "''d08ae169''" "''1689700060.25''" seeded_database]
  by (simp add: open_sessions_def seeded_database_def)

text \<open>Claim C6 as stated fails: a logout for a user with no open row raises nothing.\<close>

theorem logout_without_open_session:
  "open_sessions ''h65ld310'' seeded_database = 0 \<and>
   logout ''h65ld310'' ''1689700000.5'' seeded_database = (Inr (), seeded_database)"
  by (simp add: open_sessions_def seeded_database_def logout_def)

section \<open>The directory's status toggle\<close>

text \<open>
  Claim C9 at a code the directory does not hold. \<^verbatim>\<open>set_status\<close> of the unknown code
  \<^verbatim>\<open>unknownQR\<close> on the directory of the two built-in users ends in the \<^verbatim>\<open>TypeError\<close> of
  \<^verbatim>\<open>user[4]\<close> on \<^verbatim>\<open>None\<close>, leaving the database as it was; the branch that prints
  \<^verbatim>\<open>Code Could not be recognized\<close> is not reached.
\<close>

theorem set_status_unknown_code:
  "get_info ''unknownQR'' seeded_database = None \<and>
   set_status ''unknownQR'' seeded_database = (Inl TypeError, seeded_database)"
  by (simp add: seeded_database_def set_status_def get_info_def)

section \<open>Adding and reading users\<close>

lemma find_append_new:
  "find P (xs @ ys) = (case find P xs of None \<Rightarrow> find P ys | Some x \<Rightarrow> Some x)"
  by (induction xs) auto

lemma strip_nul_idem: "strip_nul (strip_nul s) = strip_nul s"
  by (simp add: strip_nul_def)

lemma get_whitelist_nonempty:
  "Users db \<noteq> [] \<Longrightarrow> get_whitelist db = Inr (map strip_nul (sort (map code (Users db))))"
  by (simp add: get_whitelist_def split: list.splits)

lemma get_whitelist_Inr:
  "get_whitelist db = Inr wl \<Longrightarrow> wl = map strip_nul (sort (map code (Users db)))"
  by (simp add: get_whitelist_def split: list.splits)

lemma np_contains_whitelist:
  assumes "get_whitelist db = Inr wl"
  shows "np_contains wl x \<longleftrightarrow> strip_nul x \<in> strip_nul ` set (map code (Users db))"
  using get_whitelist_Inr[OF assms]
  by (auto simp: np_contains_def strip_nul_idem image_iff)

lemma QrLogger_init_whitelist:
  "QrLogger_init ok1 ok2 db = (Inr self, db') \<Longrightarrow> get_whitelist db' = Inr (authorized_users self)"
  by (auto simp: QrLogger_init_def split: prod.splits sum.splits)

lemma QrLogger_init_new_file:
  "QrLogger_init True True empty_database =
     (Inr \<lparr>authorized_users = [''d08ae169'', ''h65ld310'']\<rparr>, seeded_database)"
  by (simp add: QrLogger_init_def Users_init_new_file get_whitelist_def seeded_database_def
      strip_nul_def less_eq_char_def less_char_def)

text \<open>
  What the directory does for every code. \<^verbatim>\<open>add_user\<close> of a code the directory does not
  hold, followed by
  \<^verbatim>\<open>get_info\<close> of that code, returns exactly the five fields supplied; \<^verbatim>\<open>add_user\<close> of
  a code that is already stored leaves the whole database, and so the stored record,
  unchanged. After two \<^verbatim>\<open>add_user\<close> calls \<^verbatim>\<open>get_whitelist\<close> returns the codes held
  before and the two new codes, each without its trailing NUL characters, and the
  array's membership test finds both new codes. When neither new code ends in a NUL
  character, the whitelist of a new directory holds exactly the two codes, in ascending
  order. All of this holds whether or not the QR image writer fails after the commit.
\<close>

theorem add_user_roundtrip:
  "(c \<notin> set (map code (Users db)) \<longrightarrow>
      get_info c (snd (add_user ok c f l e st db)) =
        Some \<lparr>code = c, firstName = f, lastName = l, email = e, status = st\<rparr>) \<and>
   (c \<in> set (map code (Users db)) \<longrightarrow>
      snd (add_user ok c f l e st db) = db \<and>
      get_info c (snd (add_user ok c f l e st db)) = get_info c db) \<and>
   (\<exists>wl. get_whitelist (snd (add_user ok2 c2 f2 l2 e2 st2
             (snd (add_user ok1 c1 f1 l1 e1 st1 db)))) = Inr wl \<and>
         set wl = strip_nul ` ({c1, c2} \<union> set (map code (Users db))) \<and>
         np_contains wl c1 \<and> np_contains wl c2) \<and>
   (strip_nul c1 = c1 \<and> strip_nul c2 = c2 \<longrightarrow>
      (\<exists>wl. get_whitelist (snd (add_user ok2 c2 f2 l2 e2 st2
             (snd (add_user ok1 c1 f1 l1 e1 st1 empty_database)))) = Inr wl \<and>
         set wl = {c1, c2} \<and> sorted wl))"
proof -
  have fresh: "c \<notin> set (map code (Users db)) \<longrightarrow>
      get_info c (snd (add_user ok c f l e st db)) =
        Some \<lparr>code = c, firstName = f, lastName = l, email = e, status = st\<rparr>"
  proof
    assume new: "c \<notin> set (map code (Users db))"
    then have "find (\<lambda>u. code u = c) (Users db) = None"
      by (auto simp: find_None_iff)
    with new show "get_info c (snd (add_user ok c f l e st db)) =
        Some \<lparr>code = c, firstName = f, lastName = l, email = e, status = st\<rparr>"
      by (simp add: add_user_def get_info_def Let_def find_append_new)
  qed
  have again: "c \<in> set (map code (Users db)) \<longrightarrow>
      snd (add_user ok c f l e st db) = db \<and>
      get_info c (snd (add_user ok c f l e st db)) = get_info c db"
    by (simp add: add_user_def Let_def)
  have codes: "code ` set (Users (snd (add_user k a b d g h x))) = insert a (code ` set (Users x))"
    for k a b d g h x
    by (auto simp: add_user_def Let_def)
  define y where "y x = snd (add_user ok2 c2 f2 l2 e2 st2 (snd (add_user ok1 c1 f1 l1 e1 st1 x)))"
    for x
  have s: "set (map code (Users (y x))) = {c1, c2} \<union> set (map code (Users x))" for x
    by (simp add: y_def codes insert_commute)
  have g: "get_whitelist (y x) = Inr (map strip_nul (sort (map code (Users (y x)))))" for x
  proof -
    from s[of x] have "Users (y x) \<noteq> []" by auto
    then show ?thesis by (rule get_whitelist_nonempty)
  qed
  have wl: "\<exists>wl. get_whitelist (y db) = Inr wl \<and>
         set wl = strip_nul ` ({c1, c2} \<union> set (map code (Users db))) \<and>
         np_contains wl c1 \<and> np_contains wl c2"
  proof -
    let ?wl = "map strip_nul (sort (map code (Users (y db))))"
    have m: "set ?wl = strip_nul ` ({c1, c2} \<union> set (map code (Users db)))"
      using s[of db] by simp
    have "np_contains ?wl c1" "np_contains ?wl c2"
      using np_contains_whitelist[OF g[of db]] s[of db] by auto
    with g[of db] m show ?thesis by blast
  qed
  have wl0: "strip_nul c1 = c1 \<and> strip_nul c2 = c2 \<longrightarrow>
      (\<exists>wl. get_whitelist (y empty_database) = Inr wl \<and> set wl = {c1, c2} \<and> sorted wl)"
  proof
    assume clean: "strip_nul c1 = c1 \<and> strip_nul c2 = c2"
    let ?cs = "sort (map code (Users (y empty_database)))"
    have cs: "set ?cs = {c1, c2}"
      using s[of empty_database] by (simp add: empty_database_def)
    then have "map strip_nul ?cs = ?cs"
      using clean by (intro map_idI) auto
    with g[of empty_database] cs
    show "\<exists>wl. get_whitelist (y empty_database) = Inr wl \<and> set wl = {c1, c2} \<and> sorted wl"
      by (intro exI[of _ ?cs]) simp
  qed
  from fresh again wl wl0 show ?thesis
    unfolding y_def by (intro conjI)
qed

theorem add_user_roundtrip_witness:
  "''h65ld310'' \<notin> set (map code (Users empty_database)) \<and>
   get_info ''h65ld310''
     (snd (add_user True ''h65ld310'' ''John'' ''Buck'' ''jbuck@gmail.com'' None empty_database)) =
     Some \<lparr>code = ''h65ld310'', firstName = ''John'', lastName = ''Buck'',
           email = ''jbuck@gmail.com'', status = None\<rparr> \<and>
   ''h65ld310'' \<in> set (map code (Users seeded_database)) \<and>
   snd (add_user True ''h65ld310'' ''Jon'' ''Bock'' ''jb@example.org'' (Some ''Active'')
          seeded_database) = seeded_database \<and>
   strip_nul ''h65ld310'' = ''h65ld310'' \<and> strip_nul ''d08ae169'' = ''d08ae169'' \<and>
   get_whitelist
     (snd (add_user True ''d08ae169'' ''Jane'' ''Doe'' ''jdoe@gmail.com'' None
        (snd (add_user True ''h65ld310'' ''John'' ''Buck'' ''jbuck@gmail.com'' None
           empty_database)))) = Inr [''d08ae169'', ''h65ld310'']"
  using add_user_roundtrip[where c = "''h65ld310''" and db = empty_database and ok = True
      and f = "''John''" and l = "''Buck''" and e = "''jbuck@gmail.com''" and st = None
      and ?c1.0 = "''h65ld310''" and ?c2.0 = "''d08ae169''"]
    add_user_roundtrip[where c = "''h65ld310''" and db = seeded_database and ok = True
      and f = "''Jon''" and l = "''Bock''" and e = "''jb@example.org''"
      and st = "Some ''Active''"]
  by (simp add: empty_database_def seeded_database_def add_user_def get_whitelist_def
      strip_nul_def less_eq_char_def less_char_def)

text \<open>
  Claim C8 at a code that ends in a NUL character. After \<^verbatim>\<open>add_user\<close> of John Buck and
  of a user with the code \<^verbatim>\<open>k27pq905\<close> followed by one NUL, on a new directory,
  \<^verbatim>\<open>get_whitelist\<close> returns \<^verbatim>\<open>h65ld310\<close> and \<^verbatim>\<open>k27pq905\<close>: the code that was added is
  not in the whitelist, and \<^verbatim>\<open>k27pq905\<close>, which is no code of the directory, is.
\<close>

theorem whitelist_drops_trailing_nul:
  "get_whitelist
     (snd (add_user True (''k27pq905'' @ [CHR 0x00]) ''Ann'' ''Lee'' ''alee@gmail.com'' None
        (snd (add_user True ''h65ld310'' ''John'' ''Buck'' ''jbuck@gmail.com'' None
           empty_database)))) = Inr [''h65ld310'', ''k27pq905''] \<and>
   ''k27pq905'' @ [CHR 0x00] \<notin> set [''h65ld310'', ''k27pq905''] \<and>
   ''k27pq905'' \<notin> set (map code (Users
     (snd (add_user True (''k27pq905'' @ [CHR 0x00]) ''Ann'' ''Lee'' ''alee@gmail.com'' None
        (snd (add_user True ''h65ld310'' ''John'' ''Buck'' ''jbuck@gmail.com'' None
           empty_database))))))"
  by (simp add: empty_database_def add_user_def get_whitelist_def strip_nul_def
      less_eq_char_def less_char_def)

section \<open>Codes outside the directory\<close>

lemma log_qr_activity_no_scan: "log_qr_activity sh (f, None) db = (Inr f, db)"
  by (simp add: log_qr_activity_def)

lemma log_qr_activity_unknown:
  "get_info c db = None \<Longrightarrow> log_qr_activity sh (f, Some (c, t)) db = (Inl TypeError, db)"
  by (simp add: log_qr_activity_def set_status_def)

lemma run_step_unknown_database:
  assumes "decode (frame t) = Some (Some c # rest)" and "c \<notin> set (map code (Users db))"
  shows "snd (snd (run_step self decode t (recent, db))) = db"
proof -
  from assms(2) have "get_info c db = None" by (simp add: get_info_None_iff)
  then have "log_qr_activity (shown t) (frame t, Some (c, now t)) db = (Inl TypeError, db)"
    by (rule log_qr_activity_unknown)
  with assms(1) show ?thesis
    by (simp add: run_step_def process_qr_def log_qr_activity_no_scan)
qed

text \<open>
  What a loop pass does for every code. When the frame decodes to a code \<open>c\<close> that the
  directory does not hold, the pass creates no ledger row and changes no user's status:
  the database is left as it was. When \<open>c\<close> is moreover not whitelisted, that is, the
  array's test does not find it because \<open>c\<close> without its trailing NUL characters is no
  entry of the whitelist (for a whitelist read from the directory: no directory code
  without its trailing NULs), \<^verbatim>\<open>process_qr\<close> returns the bare frame and leaves
  \<^verbatim>\<open>recent_accesses\<close> as it was, \<^verbatim>\<open>log_qr_activity\<close> returns the frame, and the whole
  pass returns the frame with the deduplication memory and the database unchanged.
\<close>

theorem unknown_code_changes_nothing:
  assumes "decode (frame t) = Some (Some c # rest)"
  shows "(c \<notin> set (map code (Users db)) \<longrightarrow>
            snd (snd (run_step self decode t (recent, db))) = db) \<and>
    (\<not> np_contains (authorized_users self) c \<longrightarrow>
       process_qr self decode (now t) (frame t) recent = (Inr (frame t, None), recent) \<and>
       log_qr_activity (shown t) (frame t, None) db = (Inr (frame t), db) \<and>
       run_step self decode t (recent, db) = (Inr (frame t), (recent, db))) \<and>
    (get_whitelist db = Inr (authorized_users self) \<and>
     strip_nul c \<notin> strip_nul ` set (map code (Users db)) \<longrightarrow>
       run_step self decode t (recent, db) = (Inr (frame t), (recent, db)))"
proof (intro conjI impI)
  assume "c \<notin> set (map code (Users db))"
  with assms show "snd (snd (run_step self decode t (recent, db))) = db"
    by (rule run_step_unknown_database)
next
  assume n: "\<not> np_contains (authorized_users self) c"
  with assms show "process_qr self decode (now t) (frame t) recent = (Inr (frame t, None), recent)"
    by (simp add: process_qr_def)
  show "log_qr_activity (shown t) (frame t, None) db = (Inr (frame t), db)"
    by (rule log_qr_activity_no_scan)
  from assms n show "run_step self decode t (recent, db) = (Inr (frame t), (recent, db))"
    by (simp add: process_qr_def run_step_def log_qr_activity_no_scan)
next
  assume a: "get_whitelist db = Inr (authorized_users self) \<and>
     strip_nul c \<notin> strip_nul ` set (map code (Users db))"
  then have "\<not> np_contains (authorized_users self) c"
    using np_contains_whitelist[of db "authorized_users self" c] by simp
  with assms show "run_step self decode t (recent, db) = (Inr (frame t), (recent, db))"
    by (simp add: process_qr_def run_step_def log_qr_activity_no_scan)
qed

theorem unknown_code_changes_nothing_witness:
  "(\<lambda>f::nat. Some [Some ''unknownQR'']) 0 = Some (Some ''unknownQR'' # []) \<and>
   ''unknownQR'' \<notin> set (map code (Users seeded_database)) \<and>
   \<not> np_contains (authorized_users \<lparr>authorized_users = [''d08ae169'', ''h65ld310'']\<rparr>)
       ''unknownQR'' \<and>
   get_whitelist seeded_database =
     Inr (authorized_users \<lparr>authorized_users = [''d08ae169'', ''h65ld310'']\<rparr>) \<and>
   strip_nul ''unknownQR'' \<notin> strip_nul ` set (map code (Users seeded_database)) \<and>
   run_step \<lparr>authorized_users = [''d08ae169'', ''h65ld310'']\<rparr>
     (\<lambda>f::nat. Some [Some ''unknownQR''])
     \<lparr>frame = 0, now = ''1689700000.5'', shown = True\<rparr> ([''h65ld310''], seeded_database) =
     (Inr 0, ([''h65ld310''], seeded_database))"
  using unknown_code_changes_nothing[of "\<lambda>f::nat. Some [Some ''unknownQR'']"
     "\<lparr>frame = 0, now = ''1689700000.5'', shown = True\<rparr>" "''unknownQR''" "[]"
     seeded_database "\<lparr>authorized_users = [''d08ae169'', ''h65ld310'']\<rparr>" "[''h65ld310'']"]
  by (simp add: seeded_database_def np_contains_def strip_nul_def get_whitelist_def
      less_eq_char_def less_char_def)

text \<open>
  Claim C7 at a code that differs from a whitelisted one by a trailing NUL character.
  \<^verbatim>\<open>h65ld310\<close> followed by one NUL is no code of the directory, yet the array's test
  accepts it: the loop pass appends it to \<^verbatim>\<open>recent_accesses\<close> and ends in the
  \<^verbatim>\<open>TypeError\<close> of \<^verbatim>\<open>set_status\<close> instead of returning the frame. The database stays
  as it was.
\<close>

theorem nul_suffixed_code_is_accepted:
  "''h65ld310'' @ [CHR 0x00] \<notin> set (map code (Users seeded_database)) \<and>
   run_step \<lparr>authorized_users = [''d08ae169'', ''h65ld310'']\<rparr>
     (\<lambda>f::nat. Some [Some (''h65ld310'' @ [CHR 0x00])])
     \<lparr>frame = 0, now = ''1689700000.5'', shown = True\<rparr> ([], seeded_database) =
     (Inl TypeError, ([''h65ld310'' @ [CHR 0x00]], seeded_database))"
  by (simp add: seeded_database_def run_step_def process_qr_def np_contains_def strip_nul_def
      log_qr_activity_def set_status_def get_info_def)

section \<open>Deduplication of scans\<close>

lemma process_qr_accepts:
  assumes "decodes_to decode f c" and "np_contains (authorized_users self) c"
    and "recent = [] \<or> last recent \<noteq> c"
  shows "process_qr self decode n f recent = (Inr (f, Some (c, n)), recent @ [c])"
  using assms
  by (auto simp: process_qr_def decodes_to_def split: option.splits list.splits)

lemma process_qr_suppresses:
  assumes "decodes_to decode f c" and "recent \<noteq> []" and "last recent = c"
  shows "process_qr self decode n f recent = (Inr (f, None), recent)"
  using assms
  by (auto simp: process_qr_def decodes_to_def split: option.splits list.splits)

lemma process_qr_no_code:
  assumes "no_code decode f"
  shows "process_qr self decode n f recent = (Inr (f, None), recent)"
  using assms by (simp add: process_qr_def no_code_def)

lemma run_step_idle:
  assumes "process_qr self decode (now t) (frame t) recent = (Inr (frame t, None), recent)"
  shows "run_step self decode t (recent, db) = (Inr (frame t), (recent, db))"
  using assms by (simp add: run_step_def log_qr_activity_no_scan)

lemma run_frames_idle:
  assumes "\<forall>t \<in> set ts. decodes_to decode (frame t) c \<or> no_code decode (frame t)"
    and "recent \<noteq> []" and "last recent = c"
  shows "run_frames self decode ts (recent, db) = (Inr (), (recent, db))"
  using assms
proof (induction ts)
  case Nil
  then show ?case by simp
next
  case (Cons t ts)
  then have "process_qr self decode (now t) (frame t) recent = (Inr (frame t, None), recent)"
    using process_qr_suppresses[of decode "frame t" c recent self "now t"]
      process_qr_no_code[of decode "frame t" self "now t" recent]
    by auto
  then have "run_step self decode t (recent, db) = (Inr (frame t), (recent, db))"
    by (rule run_step_idle)
  with Cons show ?case by simp
qed

lemma run_frames_first_accepted:
  assumes "decodes_to decode (frame t) c" and "np_contains (authorized_users self) c"
    and "recent = [] \<or> last recent \<noteq> c"
    and "\<forall>t' \<in> set ts. decodes_to decode (frame t') c \<or> no_code decode (frame t')"
  shows "run_frames self decode (t # ts) (recent, db) =
     (case log_qr_activity (shown t) (frame t, Some (c, now t)) db of
        (Inl e, db1) \<Rightarrow> (Inl e, (recent @ [c], db1))
      | (Inr _, db1) \<Rightarrow> (Inr (), (recent @ [c], db1)))"
proof -
  have p: "process_qr self decode (now t) (frame t) recent =
      (Inr (frame t, Some (c, now t)), recent @ [c])"
    using assms(1-3) by (rule process_qr_accepts)
  obtain r db1 where l: "log_qr_activity (shown t) (frame t, Some (c, now t)) db = (r, db1)"
    by (cases "log_qr_activity (shown t) (frame t, Some (c, now t)) db")
  have s: "run_step self decode t (recent, db) = (r, (recent @ [c], db1))"
    by (simp add: run_step_def p l)
  have i: "run_frames self decode ts (recent @ [c], db1) = (Inr (), (recent @ [c], db1))"
    using assms(4) by (intro run_frames_idle[where c = c]) simp_all
  show ?thesis
    by (cases r) (simp_all add: s l i)
qed

text \<open>
  Claim C5, as amended. Let the code \<open>c\<close> be whitelisted and let every one of the
  \<open>N \<ge> 1\<close> frames \<open>t # ts\<close> decode to \<open>c\<close>. When \<open>c\<close> is not the last accepted code (the
  list \<^verbatim>\<open>recent_accesses\<close> is empty or ends in another code), \<^verbatim>\<open>process_qr\<close> accepts the
  first frame (it returns the code with the timestamp and appends \<open>c\<close> to
  \<^verbatim>\<open>recent_accesses\<close>), it suppresses every later frame, and the loop over the \<open>N\<close>
  frames ends with \<open>c\<close> appended once and with the database that the single
  \<^verbatim>\<open>log_qr_activity\<close> call of the first frame leaves (the loop stops there if that call
  raises): exactly one accepted event. When \<open>c\<close> already is the last accepted code,
  every one of the \<open>N\<close> frames is suppressed and the loop changes nothing: no accepted
  event.
\<close>

theorem same_code_accepted_once:
  assumes "np_contains (authorized_users self) c"
    and "\<forall>t' \<in> set (t # ts). decodes_to decode (frame t') c"
  shows "(recent = [] \<or> last recent \<noteq> c \<longrightarrow>
           process_qr self decode (now t) (frame t) recent =
             (Inr (frame t, Some (c, now t)), recent @ [c]) \<and>
           (\<forall>t' \<in> set ts. process_qr self decode (now t') (frame t') (recent @ [c]) =
             (Inr (frame t', None), recent @ [c])) \<and>
           run_frames self decode (t # ts) (recent, db) =
             (case log_qr_activity (shown t) (frame t, Some (c, now t)) db of
                (Inl e, db1) \<Rightarrow> (Inl e, (recent @ [c], db1))
              | (Inr _, db1) \<Rightarrow> (Inr (), (recent @ [c], db1)))) \<and>
         (recent \<noteq> [] \<and> last recent = c \<longrightarrow>
           (\<forall>t' \<in> set (t # ts). process_qr self decode (now t') (frame t') recent =
             (Inr (frame t', None), recent)) \<and>
           run_frames self decode (t # ts) (recent, db) = (Inr (), (recent, db)))"
proof (intro conjI impI ballI)
  assume "recent = [] \<or> last recent \<noteq> c"
  then show "process_qr self decode (now t) (frame t) recent =
           (Inr (frame t, Some (c, now t)), recent @ [c])"
    using assms by (intro process_qr_accepts) simp_all
next
  fix t' assume "t' \<in> set ts"
  with assms(2) have "decodes_to decode (frame t') c" by simp
  then show "process_qr self decode (now t') (frame t') (recent @ [c]) =
           (Inr (frame t', None), recent @ [c])"
    by (intro process_qr_suppresses) simp_all
next
  assume "recent = [] \<or> last recent \<noteq> c"
  then show "run_frames self decode (t # ts) (recent, db) =
           (case log_qr_activity (shown t) (frame t, Some (c, now t)) db of
              (Inl e, db1) \<Rightarrow> (Inl e, (recent @ [c], db1))
            | (Inr _, db1) \<Rightarrow> (Inr (), (recent @ [c], db1)))"
    using assms by (intro run_frames_first_accepted) simp_all
next
  fix t' assume "recent \<noteq> [] \<and> last recent = c" and "t' \<in> set (t # ts)"
  with assms(2) show "process_qr self decode (now t') (frame t') recent =
           (Inr (frame t', None), recent)"
    by (intro process_qr_suppresses) auto
next
  assume "recent \<noteq> [] \<and> last recent = c"
  with assms(2) show "run_frames self decode (t # ts) (recent, db) = (Inr (), (recent, db))"
    by (intro run_frames_idle[where c = c]) auto
qed

theorem same_code_accepted_once_witness:
  "np_contains (authorized_users \<lparr>authorized_users = [''d08ae169'', ''h65ld310'']\<rparr>) ''h65ld310'' \<and>
   decodes_to (\<lambda>f::nat. Some [Some ''h65ld310'']) 0 ''h65ld310'' \<and>
   decodes_to (\<lambda>f::nat. Some [Some ''h65ld310'']) 1 ''h65ld310'' \<and>
   decodes_to (\<lambda>f::nat. Some [Some ''h65ld310'']) 2 ''h65ld310'' \<and>
   run_frames \<lparr>authorized_users = [''d08ae169'', ''h65ld310'']\<rparr>
     (\<lambda>f::nat. Some [Some ''h65ld310''])
     [\<lparr>frame = 0, now = ''1689700000.5'', shown = True\<rparr>,
      \<lparr>frame = 1, now = ''1689700003.1'', shown = True\<rparr>,
      \<lparr>frame = 2, now = ''1689700005.7'', shown = True\<rparr>]
     ([], seeded_database) =
   (Inr (), ([''h65ld310''],
      \<lparr>Users =
        [\<lparr>code = ''h65ld310'', firstName = ''John'', lastName = ''Buck'',
          email = ''jbuck@gmail.com'', status = Some ''Active''\<rparr>,
         \<lparr>code = ''d08ae169'', firstName = ''Jane'', lastName = ''Doe'',
          email = ''jdoe@gmail.com'', status = None\<rparr>],
       Logins = [\<lparr>timestamp = ''1689700000.5'', logoutTime = None, userCode = ''h65ld310''\<rparr>]\<rparr>)) \<and>
   last [''d08ae169'', ''h65ld310''] = ''h65ld310'' \<and>
   run_frames \<lparr>authorized_users = [''d08ae169'', ''h65ld310'']\<rparr>
     (\<lambda>f::nat. Some [Some ''h65ld310''])
     [\<lparr>frame = 0, now = ''1689700000.5'', shown = True\<rparr>,
      \<lparr>frame = 1, now = ''1689700003.1'', shown = True\<rparr>]
     ([''d08ae169'', ''h65ld310''], seeded_database) =
   (Inr (), ([''d08ae169'', ''h65ld310''], seeded_database))"
  using same_code_accepted_once[where c = "''h65ld310''"
      and self = "\<lparr>authorized_users = [''d08ae169'', ''h65ld310'']\<rparr>"
      and recent = "[]" and t = "\<lparr>frame = 0, now = ''1689700000.5'', shown = True\<rparr>"
      and ts = "[\<lparr>frame = 1, now = ''1689700003.1'', shown = True\<rparr>,
        \<lparr>frame = 2, now = ''1689700005.7'', shown = True\<rparr>]"
      and decode = "\<lambda>f::nat. Some [Some ''h65ld310'']" and db = seeded_database]
    same_code_accepted_once[where c = "''h65ld310''"
      and self = "\<lparr>authorized_users = [''d08ae169'', ''h65ld310'']\<rparr>"
      and recent = "[''d08ae169'', ''h65ld310'']"
      and t = "\<lparr>frame = 0, now = ''1689700000.5'', shown = True\<rparr>"
      and ts = "[\<lparr>frame = 1, now = ''1689700003.1'', shown = True\<rparr>]"
      and decode = "\<lambda>f::nat. Some [Some ''h65ld310'']" and db = seeded_database]
  by (simp add: np_contains_def strip_nul_def log_qr_activity_def set_status_def get_info_def
      update_status_def login_def seeded_database_def decodes_to_def)

text \<open>
  Claim C5 as stated fails when the code is already the last accepted one: with
  \<^verbatim>\<open>recent_accesses\<close> ending in John Buck's code, three frames showing his code give no
  accepted event, and the first frame is not accepted.
\<close>

theorem repeated_code_no_event:
  "np_contains (authorized_users \<lparr>authorized_users = [''d08ae169'', ''h65ld310'']\<rparr>) ''h65ld310'' \<and>
   process_qr \<lparr>authorized_users = [''d08ae169'', ''h65ld310'']\<rparr>
     (\<lambda>f::nat. Some [Some ''h65ld310'']) ''1689700000.5'' 0 [''h65ld310''] =
     (Inr (0, None), [''h65ld310'']) \<and>
   run_frames \<lparr>authorized_users = [''d08ae169'', ''h65ld310'']\<rparr>
     (\<lambda>f::nat. Some [Some ''h65ld310''])
     [\<lparr>frame = 0, now = ''1689700000.5'', shown = True\<rparr>,
      \<lparr>frame = 1, now = ''1689700003.1'', shown = True\<rparr>,
      \<lparr>frame = 2, now = ''1689700005.7'', shown = True\<rparr>]
     ([''h65ld310''], seeded_database) =
   (Inr (), ([''h65ld310''], seeded_database))"
  by (simp add: np_contains_def strip_nul_def run_step_def process_qr_def
      log_qr_activity_def)

text \<open>
  Claim C4, as amended. Let \<open>c\<close> be whitelisted and not the last accepted code. A frame
  showing \<open>c\<close>, then one or more frames with no code, then a frame showing \<open>c\<close> again
  give one accepted event, not two: a frame with no code leaves \<^verbatim>\<open>recent_accesses\<close>
  alone, so \<open>c\<close> is still its last entry and the second presentation is suppressed.
  The loop ends with \<open>c\<close> appended once and with the database of the one
  \<^verbatim>\<open>log_qr_activity\<close> call.
\<close>

theorem absence_does_not_reset:
  assumes "np_contains (authorized_users self) c"
    and "recent = [] \<or> last recent \<noteq> c"
    and "decodes_to decode (frame t1) c"
    and "blanks \<noteq> []" and "\<forall>b \<in> set blanks. no_code decode (frame b)"
    and "decodes_to decode (frame t2) c"
  shows "process_qr self decode (now t1) (frame t1) recent =
           (Inr (frame t1, Some (c, now t1)), recent @ [c]) \<and>
         (\<forall>b \<in> set blanks. process_qr self decode (now b) (frame b) (recent @ [c]) =
           (Inr (frame b, None), recent @ [c])) \<and>
         process_qr self decode (now t2) (frame t2) (recent @ [c]) =
           (Inr (frame t2, None), recent @ [c]) \<and>
         run_frames self decode (t1 # blanks @ [t2]) (recent, db) =
           (case log_qr_activity (shown t1) (frame t1, Some (c, now t1)) db of
              (Inl e, db1) \<Rightarrow> (Inl e, (recent @ [c], db1))
            | (Inr _, db1) \<Rightarrow> (Inr (), (recent @ [c], db1)))"
proof (intro conjI ballI)
  show "process_qr self decode (now t1) (frame t1) recent =
           (Inr (frame t1, Some (c, now t1)), recent @ [c])"
    using assms by (intro process_qr_accepts) simp_all
next
  fix b assume "b \<in> set blanks"
  with assms(5) show "process_qr self decode (now b) (frame b) (recent @ [c]) =
           (Inr (frame b, None), recent @ [c])"
    by (intro process_qr_no_code) simp
next
  show "process_qr self decode (now t2) (frame t2) (recent @ [c]) =
           (Inr (frame t2, None), recent @ [c])"
    using assms(6) by (intro process_qr_suppresses) simp_all
next
  show "run_frames self decode (t1 # blanks @ [t2]) (recent, db) =
           (case log_qr_activity (shown t1) (frame t1, Some (c, now t1)) db of
              (Inl e, db1) \<Rightarrow> (Inl e, (recent @ [c], db1))
            | (Inr _, db1) \<Rightarrow> (Inr (), (recent @ [c], db1)))"
    using assms by (intro run_frames_first_accepted) auto
qed

theorem absence_does_not_reset_witness:
  "np_contains (authorized_users \<lparr>authorized_users = [''d08ae169'', ''h65ld310'']\<rparr>) ''d08ae169'' \<and>
   last [''h65ld310''] \<noteq> ''d08ae169'' \<and>
   decodes_to (\<lambda>f::nat. if f = 1 \<or> f = 2 then Some [] else Some [Some ''d08ae169'']) 0 ''d08ae169'' \<and>
   no_code (\<lambda>f::nat. if f = 1 \<or> f = 2 then Some [] else Some [Some ''d08ae169'']) 1 \<and>
   no_code (\<lambda>f::nat. if f = 1 \<or> f = 2 then Some [] else Some [Some ''d08ae169'']) 2 \<and>
   decodes_to (\<lambda>f::nat. if f = 1 \<or> f = 2 then Some [] else Some [Some ''d08ae169'']) 3 ''d08ae169'' \<and>
   run_frames \<lparr>authorized_users = [''d08ae169'', ''h65ld310'']\<rparr>
     (\<lambda>f::nat. if f = 1 \<or> f = 2 then Some [] else Some [Some ''d08ae169''])
     [\<lparr>frame = 0, now = ''1689700000.5'', shown = True\<rparr>,
      \<lparr>frame = 1, now = ''1689700003.1'', shown = True\<rparr>,
      \<lparr>frame = 2, now = ''1689700003.2'', shown = True\<rparr>,
      \<lparr>frame = 3, now = ''1689700005.7'', shown = True\<rparr>]
     ([''h65ld310''], seeded_database) =
   (Inr (), ([''h65ld310'', ''d08ae169''],
      \<lparr>Users =
        [\<lparr>code = ''h65ld310'', firstName = ''John'', lastName = ''Buck'',
          email = ''jbuck@gmail.com'', status = None\<rparr>,
         \<lparr>code = ''d08ae169'', firstName = ''Jane'', lastName = ''Doe'',
          email = ''jdoe@gmail.com'', status = Some ''Active''\<rparr>],
       Logins = [\<lparr>timestamp = ''1689700000.5'', logoutTime = None, userCode = ''d08ae169''\<rparr>]\<rparr>))"
  using absence_does_not_reset[where c = "''d08ae169''"
      and self = "\<lparr>authorized_users = [''d08ae169'', ''h65ld310'']\<rparr>"
      and recent = "[''h65ld310'']"
      and decode = "\<lambda>f::nat. if f = 1 \<or> f = 2 then Some [] else Some [Some ''d08ae169'']"
      and ?t1.0 = "\<lparr>frame = 0, now = ''1689700000.5'', shown = True\<rparr>"
      and blanks = "[\<lparr>frame = 1, now = ''1689700003.1'', shown = True\<rparr>,
        \<lparr>frame = 2, now = ''1689700003.2'', shown = True\<rparr>]"
      and ?t2.0 = "\<lparr>frame = 3, now = ''1689700005.7'', shown = True\<rparr>" and db = seeded_database]
  by (simp add: np_contains_def strip_nul_def log_qr_activity_def set_status_def get_info_def
      update_status_def login_def seeded_database_def decodes_to_def no_code_def)

text \<open>Claim C4 as stated fails: John Buck's code, a frame with no code, and his code again
  log him in once; the third frame changes nothing.\<close>

theorem second_presentation_suppressed:
  "decodes_to (\<lambda>f::nat. if f = 1 then Some [] else Some [Some ''h65ld310'']) 0 ''h65ld310'' \<and>
   no_code (\<lambda>f::nat. if f = 1 then Some [] else Some [Some ''h65ld310'']) 1 \<and>
   decodes_to (\<lambda>f::nat. if f = 1 then Some [] else Some [Some ''h65ld310'']) 2 ''h65ld310'' \<and>
   run_frames \<lparr>authorized_users = [''d08ae169'', ''h65ld310'']\<rparr>
     (\<lambda>f::nat. if f = 1 then Some [] else Some [Some ''h65ld310''])
     [\<lparr>frame = 0, now = ''1689700000.5'', shown = True\<rparr>,
      \<lparr>frame = 1, now = ''1689700003.1'', shown = True\<rparr>,
      \<lparr>frame = 2, now = ''1689700005.7'', shown = True\<rparr>]
     ([], seeded_database) =
   (Inr (), ([''h65ld310''],
      \<lparr>Users =
        [\<lparr>code = ''h65ld310'', firstName = ''John'', lastName = ''Buck'',
          email = ''jbuck@gmail.com'', status = Some ''Active''\<rparr>,
         \<lparr>code = ''d08ae169'', firstName = ''Jane'', lastName = ''Doe'',
          email = ''jdoe@gmail.com'', status = None\<rparr>],
       Logins = [\<lparr>timestamp = ''1689700000.5'', logoutTime = None, userCode = ''h65ld310''\<rparr>]\<rparr>))"
  by (simp add: np_contains_def strip_nul_def run_step_def process_qr_def log_qr_activity_def
      set_status_def get_info_def update_status_def login_def seeded_database_def
      decodes_to_def no_code_def)

section \<open>The presence state machine\<close>

lemma status_of_update_status:
  "status_of c' (update_status c s db) =
     (if c' = c then map_option (\<lambda>_. Some s) (status_of c db) else status_of c' db)"
  by (simp add: status_of_def get_info_update_status option.map_comp comp_def)

lemma status_of_login: "status_of c' (snd (login ts c db)) = status_of c' db"
  by (simp add: status_of_def get_info_def login_def)

lemma status_of_logout: "status_of c' (snd (logout c lt db)) = status_of c' db"
  by (simp add: status_of_def get_info_def logout_def)

lemma set_status_activates:
  assumes "get_info c db = Some u" and "status u = None \<or> status u = Some ''Inactive''"
  shows "set_status c db = (Inr (Some ''Active''), update_status c ''Active'' db)"
  using assms by (auto simp: set_status_def)

lemma set_status_deactivates:
  assumes "get_info c db = Some u" and "status u = Some ''Active''"
  shows "set_status c db = (Inr (Some ''Inactive''), update_status c ''Inactive'' db)"
  using assms by (simp add: set_status_def)

lemma log_qr_activity_login:
  assumes "get_info c db = Some u" and "status u = None \<or> status u = Some ''Inactive''"
  shows "log_qr_activity sh (f, Some (c, t)) db =
     (if sh then
        (if t \<in> set (map timestamp (Logins db))
         then (Inl SQLiteError, update_status c ''Active'' db)
         else (Inr f, (update_status c ''Active'' db)\<lparr>Logins := Logins db @
                 [\<lparr>timestamp = t, logoutTime = None, userCode = c\<rparr>]\<rparr>))
      else (Inl ExternalError, update_status c ''Active'' db))"
  by (simp add: log_qr_activity_def set_status_activates[OF assms] login_def Logins_update_status)

lemma log_qr_activity_logout:
  assumes "get_info c db = Some u" and "status u = Some ''Active''"
  shows "log_qr_activity sh (f, Some (c, t)) db =
     (if sh then (Inr f, (update_status c ''Inactive'' db)\<lparr>Logins := map (close_row c t) (Logins db)\<rparr>)
      else (Inl ExternalError, update_status c ''Inactive'' db))"
  by (simp add: log_qr_activity_def set_status_deactivates[OF assms] logout_def Logins_update_status)

lemma status_of_Logins_update [simp]: "status_of c (db\<lparr>Logins := ls\<rparr>) = status_of c db"
  by (simp add: status_of_def get_info_def)

lemma get_info_Logins_update [simp]: "get_info c (db\<lparr>Logins := ls\<rparr>) = get_info c db"
  by (simp add: get_info_def)


lemma log_qr_activity_other:
  assumes "get_info c db = Some u" and "status u = Some y"
    and "y \<noteq> ''Inactive''" and "y \<noteq> ''Active''"
  shows "log_qr_activity sh (f, Some (c, t)) db =
     (if sh then (Inr f, db\<lparr>Logins := map (close_row c t) (Logins db)\<rparr>)
      else (Inl ExternalError, db))"
proof -
  have "set_status c db = (Inr None, db)"
    using assms by (simp add: set_status_def)
  then show ?thesis by (simp add: log_qr_activity_def logout_def)
qed




section \<open>The two writes of an accepted observation\<close>

text \<open>
  Claim C3, as amended. For an accepted observation of a user of the directory the
  status write comes first, is committed on its own and is kept whatever follows: a
  stored status null or \<^verbatim>\<open>Inactive\<close> becomes \<^verbatim>\<open>Active\<close>, \<^verbatim>\<open>Active\<close> becomes \<^verbatim>\<open>Inactive\<close>,
  and any other stored text is left alone (\<^verbatim>\<open>set_status\<close> then writes nothing). The
  ledger write is a later, separate commit. When the call returns the frame, the
  validation window was shown and the ledger write took effect as well (a new open row
  after a change to \<^verbatim>\<open>Active\<close>, otherwise the open rows of the user closed). When the
  call raises, the ledger is unchanged: either the validation window failed, or
  \<^verbatim>\<open>login\<close> met a timestamp that is already a key; a changed status then stays with no
  matching ledger change.
\<close>

theorem status_write_precedes_ledger_write:
  assumes "get_info c db = Some u"
  shows "\<exists>r db'. log_qr_activity sh (f, Some (c, t)) db = (r, db') \<and>
      status_of c db = Some (status u) \<and>
      status_of c db' =
        Some (if status u = None \<or> status u = Some ''Inactive'' then Some ''Active''
              else if status u = Some ''Active'' then Some ''Inactive'' else status u) \<and>
      (case r of
         Inr f' \<Rightarrow>
           f' = f \<and> sh \<and>
           (status u = None \<or> status u = Some ''Inactive'' \<longrightarrow>
              t \<notin> set (map timestamp (Logins db))) \<and>
           Logins db' =
             (if status u = None \<or> status u = Some ''Inactive''
              then Logins db @ [\<lparr>timestamp = t, logoutTime = None, userCode = c\<rparr>]
              else map (close_row c t) (Logins db))
       | Inl e \<Rightarrow>
           (e = ExternalError \<and> \<not> sh \<or>
            e = SQLiteError \<and> sh \<and> (status u = None \<or> status u = Some ''Inactive'') \<and>
              t \<in> set (map timestamp (Logins db))) \<and>
           Logins db' = Logins db)"
proof -
  have st: "status_of c db = Some (status u)"
    using assms by (simp add: status_of_def)
  consider (login) "status u = None \<or> status u = Some ''Inactive''"
    | (logout) "status u = Some ''Active''"
    | (other) y where "status u = Some y" "y \<noteq> ''Inactive''" "y \<noteq> ''Active''"
    by (cases "status u") auto
  then show ?thesis
  proof cases
    case login
    show ?thesis
      using log_qr_activity_login[OF assms login, of sh f t] st login
      by (cases sh; cases "t \<in> set (map timestamp (Logins db))")
         (simp_all add: status_of_update_status Logins_update_status)
  next
    case logout
    show ?thesis
      using log_qr_activity_logout[OF assms logout, of sh f t] st logout
      by (cases sh) (simp_all add: status_of_update_status Logins_update_status)
  next
    case other
    show ?thesis
      using log_qr_activity_other[OF assms other, of sh f t] st other
      by (cases sh) simp_all
  qed
qed

theorem status_write_precedes_ledger_write_witness:
  "get_info ''h65ld310'' seeded_database =
     Some \<lparr>code = ''h65ld310'', firstName = ''John'', lastName = ''Buck'',
           email = ''jbuck@gmail.com'', status = None\<rparr> \<and>
   log_qr_activity False (0::nat, Some (''h65ld310'', ''1689700000.5'')) seeded_database =
     (Inl ExternalError,
      \<lparr>Users =
        [\<lparr>code = ''h65ld310'', firstName = ''John'', lastName = ''Buck'',
          email = ''jbuck@gmail.com'', status = Some ''Active''\<rparr>,
         \<lparr>code = ''d08ae169'', firstName = ''Jane'', lastName = ''Doe'',
          email = ''jdoe@gmail.com'', status = None\<rparr>],
       Logins = []\<rparr>)"
  using status_write_precedes_ledger_write[where c = "''h65ld310''" and db = seeded_database
      and u = "\<lparr>code = ''h65ld310'', firstName = ''John'', lastName = ''Buck'',
           email = ''jbuck@gmail.com'', status = None\<rparr>"
      and sh = False and f = "0::nat" and t = "''1689700000.5''"]
  by (simp add: seeded_database_def get_info_def log_qr_activity_def set_status_def
      update_status_def)

text \<open>Claim C3 as stated fails: Jane Doe is logged in with the ledger key
  \<^verbatim>\<open>1689700000.5\<close>; John Buck's scan at the same timestamp raises in \<^verbatim>\<open>login\<close>, yet his
  status is now \<^verbatim>\<open>Active\<close> and the ledger has no row for him.\<close>

theorem failed_login_keeps_status_change:
  "status_of ''h65ld310''
     \<lparr>Users =
        [\<lparr>code = ''h65ld310'', firstName = ''John'', lastName = ''Buck'',
          email = ''jbuck@gmail.com'', status = None\<rparr>,
         \<lparr>code = ''d08ae169'', firstName = ''Jane'', lastName = ''Doe'',
          email = ''jdoe@gmail.com'', status = Some ''Active''\<rparr>],
       Logins = [\<lparr>timestamp = ''1689700000.5'', logoutTime = None, userCode = ''d08ae169''\<rparr>]\<rparr>
     = Some None \<and>
   log_qr_activity True (0::nat, Some (''h65ld310'', ''1689700000.5''))
     \<lparr>Users =
        [\<lparr>code = ''h65ld310'', firstName = ''John'', lastName = ''Buck'',
          email = ''jbuck@gmail.com'', status = None\<rparr>,
         \<lparr>code = ''d08ae169'', firstName = ''Jane'', lastName = ''Doe'',
          email = ''jdoe@gmail.com'', status = Some ''Active''\<rparr>],
       Logins = [\<lparr>timestamp = ''1689700000.5'', logoutTime = None, userCode = ''d08ae169''\<rparr>]\<rparr>
     = (Inl SQLiteError,
        \<lparr>Users =
          [\<lparr>code = ''h65ld310'', firstName = ''John'', lastName = ''Buck'',
            email = ''jbuck@gmail.com'', status = Some ''Active''\<rparr>,
           \<lparr>code = ''d08ae169'', firstName = ''Jane'', lastName = ''Doe'',
            email = ''jdoe@gmail.com'', status = Some ''Active''\<rparr>],
         Logins = [\<lparr>timestamp = ''1689700000.5'', logoutTime = None, userCode = ''d08ae169''\<rparr>]\<rparr>)"
  by (simp add: status_of_def get_info_def log_qr_activity_def set_status_def
      update_status_def login_def)

section \<open>Open sessions in the ledger\<close>

lemma open_sessions_pos_iff:
  "open_sessions c db \<noteq> 0 \<longleftrightarrow> (\<exists>r \<in> set (Logins db). userCode r = c \<and> logoutTime r = None)"
  by (auto simp: open_sessions_def filter_empty_conv)

lemma session_inv_iff:
  "session_inv db \<longleftrightarrow>
     (\<forall>c. open_sessions c db \<le> 1 \<and>
          (open_sessions c db \<noteq> 0 \<longrightarrow> status_of c db = Some (Some ''Active'')))"
proof
  assume inv: "session_inv db"
  show "\<forall>c. open_sessions c db \<le> 1 \<and>
          (open_sessions c db \<noteq> 0 \<longrightarrow> status_of c db = Some (Some ''Active''))"
  proof
    fix c
    show "open_sessions c db \<le> 1 \<and>
          (open_sessions c db \<noteq> 0 \<longrightarrow> status_of c db = Some (Some ''Active''))"
    proof (cases "open_sessions c db = 0")
      case True
      then show ?thesis by simp
    next
      case False
      with open_sessions_pos_iff[of c db]
      obtain r where "r \<in> set (Logins db)" "userCode r = c" "logoutTime r = None"
        by blast
      with inv show ?thesis by (auto simp: session_inv_def)
    qed
  qed
next
  assume a: "\<forall>c. open_sessions c db \<le> 1 \<and>
          (open_sessions c db \<noteq> 0 \<longrightarrow> status_of c db = Some (Some ''Active''))"
  show "session_inv db"
    unfolding session_inv_def
  proof (intro ballI impI)
    fix r assume "r \<in> set (Logins db)" "logoutTime r = None"
    with open_sessions_pos_iff[of "userCode r" db]
    have "open_sessions (userCode r) db \<noteq> 0"
      by blast
    with a show "status_of (userCode r) db = Some (Some ''Active'') \<and>
        open_sessions (userCode r) db \<le> 1"
      by blast
  qed
qed

lemma open_sessions_Logins_append:
  "open_sessions c' ((update_status c0 s db)\<lparr>Logins := Logins db @
       [\<lparr>timestamp = t, logoutTime = None, userCode = c\<rparr>]\<rparr>) =
     open_sessions c' db + (if c' = c then 1 else 0)"
  by (simp add: open_sessions_def)

lemma open_sessions_Logins_close:
  "open_sessions c' ((update_status c0 s db)\<lparr>Logins := map (close_row c t) (Logins db)\<rparr>) =
     (if c' = c then 0 else open_sessions c' db)"
  using open_sessions_logout[of c' c t db] by (simp add: logout_def open_sessions_def)

lemma open_sessions_Users_update [simp]:
  "open_sessions c (db\<lparr>Users := us\<rparr>) = open_sessions c db"
  by (simp add: open_sessions_def)

lemma log_qr_activity_session_inv:
  assumes inv: "session_inv db"
  shows "session_inv (snd (log_qr_activity True info db))"
proof (cases info)
  case (Pair f scan)
  show ?thesis
  proof (cases scan)
    case None
    with Pair inv show ?thesis by (simp add: log_qr_activity_no_scan)
  next
    case (Some ct)
    obtain c t where ct: "ct = (c, t)" by (cases ct)
    note info = Pair Some ct
    from inv have all: "\<And>c'. open_sessions c' db \<le> 1 \<and>
          (open_sessions c' db \<noteq> 0 \<longrightarrow> status_of c' db = Some (Some ''Active''))"
      by (simp add: session_inv_iff)
    show ?thesis
    proof (cases "get_info c db")
      case None
      then show ?thesis using inv info by (simp add: log_qr_activity_def set_status_def)
    next
      case (Some u)
      have st: "status_of c db = Some (status u)"
        using Some by (simp add: status_of_def)
      consider (login) "status u = None \<or> status u = Some ''Inactive''"
        | (logout) "status u = Some ''Active''"
        | (other) "status u \<noteq> None" "status u \<noteq> Some ''Inactive''" "status u \<noteq> Some ''Active''"
        by blast
      then show ?thesis
      proof cases
        case login
        then have "status_of c db \<noteq> Some (Some ''Active'')" using st by auto
        with all[of c] have none: "open_sessions c db = 0" by blast
        show ?thesis
          unfolding session_inv_iff
          using log_qr_activity_login[OF Some login, of True f t] all none info
          by (auto simp: open_sessions_Logins_append open_sessions_update_status
              status_of_update_status st)
      next
        case logout
        show ?thesis
          unfolding session_inv_iff
          using log_qr_activity_logout[OF Some logout, of True f t] all info
          by (auto simp: open_sessions_Logins_close open_sessions_update_status
              status_of_update_status)
      next
        case other
        then obtain y where y: "status u = Some y" "y \<noteq> ''Inactive''" "y \<noteq> ''Active''"
          by (cases "status u") auto
        have "set_status c db = (Inr None, db)"
          using Some y by (simp add: set_status_def)
        then have "log_qr_activity True info db = (Inr f, snd (logout c t db))"
          using info by (simp add: log_qr_activity_def logout_def)
        then show ?thesis
          unfolding session_inv_iff
          using all by (auto simp: open_sessions_logout status_of_logout)
      qed
    qed
  qed
qed

lemma run_step_session_inv:
  assumes "session_inv db" and "shown t"
  shows "session_inv (snd (snd (run_step self decode t (recent, db))))"
proof (cases "process_qr self decode (now t) (frame t) recent")
  case (Pair r recent')
  show ?thesis
  proof (cases r)
    case (Inl e)
    with Pair assms show ?thesis by (simp add: run_step_def)
  next
    case (Inr info)
    with Pair assms log_qr_activity_session_inv[OF assms(1), of info] show ?thesis
      by (cases "log_qr_activity True info db") (simp add: run_step_def)
  qed
qed

lemma run_frames_session_inv:
  assumes "session_inv (snd s)" and "\<forall>t \<in> set ticks. shown t"
  shows "session_inv (snd (snd (run_frames self decode ticks s)))"
  using assms
proof (induction ticks arbitrary: s)
  case Nil
  then show ?case by simp
next
  case (Cons t ticks)
  obtain r s' where step: "run_step self decode t s = (r, s')"
    by (cases "run_step self decode t s")
  have "session_inv (snd s')"
    using run_step_session_inv[of "snd s" t self decode "fst s"] Cons.prems step by simp
  with Cons step show ?case by (cases r) simp_all
qed

lemma status_of_add_user:
  "status_of c' db = Some x \<Longrightarrow> status_of c' (snd (add_user ok c f l e st db)) = Some x"
  by (auto simp: status_of_def get_info_def add_user_def Let_def find_append_new)

lemma open_sessions_add_user:
  "open_sessions c' (snd (add_user ok c f l e st db)) = open_sessions c' db"
  by (simp add: add_user_def Let_def)

lemma open_sessions_set_status:
  "open_sessions c' (snd (set_status c db)) = open_sessions c' db"
  by (simp add: set_status_def open_sessions_update_status split: option.splits)

lemma add_user_session_inv:
  assumes "session_inv db"
  shows "session_inv (snd (add_user ok c f l e st db))"
  using assms unfolding session_inv_iff
  by (auto simp: open_sessions_add_user status_of_add_user)

text \<open>
  Claim C2, as amended. Start from a database in which every open ledger row belongs to
  a user whose status is \<^verbatim>\<open>Active\<close> and who has no second open row (a new database is
  one). In every state the scanning loop reaches from it, as long as the validation
  window is shown at every pass, that consistency holds again and every user code has at
  most one open ledger row; \<^verbatim>\<open>add_user\<close> keeps the consistency too. On any database
  \<^verbatim>\<open>add_user\<close> and \<^verbatim>\<open>set_status\<close> leave the number of open rows of a code as it is and
  \<^verbatim>\<open>logout\<close> never raises it, whereas \<^verbatim>\<open>login\<close> with a new timestamp always adds one
  open row for its user: the bound rests on the loop calling \<^verbatim>\<open>login\<close> only after
  \<^verbatim>\<open>set_status\<close> found the status unset or \<^verbatim>\<open>Inactive\<close>.
\<close>

theorem at_most_one_open_session:
  assumes "session_inv db" and "\<forall>t \<in> set ticks. shown t"
  shows "session_inv (snd (snd (run_frames self decode ticks (recent, db)))) \<and>
         open_sessions c (snd (snd (run_frames self decode ticks (recent, db)))) \<le> 1 \<and>
         session_inv (snd (add_user ok c' f l e st db)) \<and>
         open_sessions c (snd (add_user ok c' f l e st x)) = open_sessions c x \<and>
         open_sessions c (snd (set_status c' x)) = open_sessions c x \<and>
         open_sessions c (snd (logout c' lt x)) \<le> open_sessions c x \<and>
         (ts \<notin> set (map timestamp (Logins x)) \<longrightarrow>
            open_sessions c' (snd (login ts c' x)) = open_sessions c' x + 1)"
proof -
  have inv: "session_inv (snd (snd (run_frames self decode ticks (recent, db))))"
    using run_frames_session_inv[of "(recent, db)" ticks self decode] assms by simp
  then have "open_sessions c (snd (snd (run_frames self decode ticks (recent, db)))) \<le> 1"
    by (simp add: session_inv_iff)
  with inv add_user_session_inv[OF assms(1)] show ?thesis
    by (simp add: open_sessions_add_user open_sessions_set_status open_sessions_logout
        open_sessions_login)
qed


theorem at_most_one_open_session_witness:
  "session_inv seeded_database \<and>
   run_frames \<lparr>authorized_users = [''d08ae169'', ''h65ld310'']\<rparr>
     (\<lambda>f::nat. if f = 1 then Some [Some ''d08ae169''] else Some [Some ''h65ld310''])
     [\<lparr>frame = 0, now = ''1689700000.5'', shown = True\<rparr>,
      \<lparr>frame = 1, now = ''1689700030.75'', shown = True\<rparr>,
      \<lparr>frame = 2, now = ''1689700060.25'', shown = True\<rparr>]
     ([], seeded_database) =
   (Inr (), ([''h65ld310'', ''d08ae169'', ''h65ld310''],
      \<lparr>Users =
        [\<lparr>code = ''h65ld310'', firstName = ''John'', lastName = ''Buck'',
          email = ''jbuck@gmail.com'', status = Some ''Inactive''\<rparr>,
         \<lparr>code = ''d08ae169'', firstName = ''Jane'', lastName = ''Doe'',
          email = ''jdoe@gmail.com'', status = Some ''Active''\<rparr>],
       Logins =
        [\<lparr>timestamp = ''1689700000.5'', logoutTime = Some ''1689700060.25'',
          userCode = ''h65ld310''\<rparr>,
         \<lparr>timestamp = ''1689700030.75'', logoutTime = None, userCode = ''d08ae169''\<rparr>]\<rparr>)) \<and>
   open_sessions ''d08ae169''
     (snd (snd (run_frames \<lparr>authorized_users = [''d08ae169'', ''h65ld310'']\<rparr>
       (\<lambda>f::nat. if f = 1 then Some [Some ''d08ae169''] else Some [Some ''h65ld310''])
       [\<lparr>frame = 0, now = ''1689700000.5'', shown = True\<rparr>,
        \<lparr>frame = 1, now = ''1689700030.75'', shown = True\<rparr>,
        \<lparr>frame = 2, now = ''1689700060.25'', shown = True\<rparr>]
       ([], seeded_database)))) \<le> 1 \<and>
   ''1689700000.5'' \<notin> set (map timestamp (Logins seeded_database)) \<and>
   open_sessions ''h65ld310'' (snd (login ''1689700000.5'' ''h65ld310'' seeded_database)) = 1"
  using at_most_one_open_session[of seeded_database
      "[\<lparr>frame = 0, now = ''1689700000.5'', shown = True\<rparr>,
        \<lparr>frame = 1, now = ''1689700030.75'', shown = True\<rparr>,
        \<lparr>frame = 2, now = ''1689700060.25'', shown = True\<rparr>]"
      "\<lparr>authorized_users = [''d08ae169'', ''h65ld310'']\<rparr>"
      "\<lambda>f::nat. if f = 1 then Some [Some ''d08ae169''] else Some [Some ''h65ld310'']"
      "[]" "''d08ae169''" True "''h65ld310''" "''John''" "''Buck''" "''jbuck@gmail.com''" None
      seeded_database "''1689700060.25''" "''1689700000.5''"]
  by (simp add: np_contains_def strip_nul_def session_inv_def seeded_database_def run_step_def process_qr_def
      log_qr_activity_def set_status_def get_info_def update_status_def login_def logout_def
      close_row_def open_sessions_def)

text \<open>
  Claim C2 as stated fails. John Buck is logged in with one open row. A direct
  \<^verbatim>\<open>login\<close> for him at a new timestamp leaves two open rows. And in the loop: a scan
  whose validation window fails sets his status to \<^verbatim>\<open>Inactive\<close> and raises before
  \<^verbatim>\<open>logout\<close>, so the row stays open; his next scan, after a restart, logs him in again
  and the ledger then holds two open rows for him.
\<close>

theorem second_open_session:
  "session_inv
     \<lparr>Users =
        [\<lparr>code = ''h65ld310'', firstName = ''John'', lastName = ''Buck'',
          email = ''jbuck@gmail.com'', status = Some ''Active''\<rparr>,
         \<lparr>code = ''d08ae169'', firstName = ''Jane'', lastName = ''Doe'',
          email = ''jdoe@gmail.com'', status = None\<rparr>],
       Logins = [\<lparr>timestamp = ''1689700000.5'', logoutTime = None, userCode = ''h65ld310''\<rparr>]\<rparr> \<and>
   open_sessions ''h65ld310''
     (snd (login ''1689700060.25'' ''h65ld310''
       \<lparr>Users =
          [\<lparr>code = ''h65ld310'', firstName = ''John'', lastName = ''Buck'',
            email = ''jbuck@gmail.com'', status = Some ''Active''\<rparr>,
           \<lparr>code = ''d08ae169'', firstName = ''Jane'', lastName = ''Doe'',
            email = ''jdoe@gmail.com'', status = None\<rparr>],
         Logins = [\<lparr>timestamp = ''1689700000.5'', logoutTime = None,
                   userCode = ''h65ld310''\<rparr>]\<rparr>)) = 2 \<and>
   run_frames \<lparr>authorized_users = [''d08ae169'', ''h65ld310'']\<rparr>
     (\<lambda>f::nat. Some [Some ''h65ld310''])
     [\<lparr>frame = 0, now = ''1689700060.25'', shown = False\<rparr>]
     ([],
      \<lparr>Users =
         [\<lparr>code = ''h65ld310'', firstName = ''John'', lastName = ''Buck'',
           email = ''jbuck@gmail.com'', status = Some ''Active''\<rparr>,
          \<lparr>code = ''d08ae169'', firstName = ''Jane'', lastName = ''Doe'',
           email = ''jdoe@gmail.com'', status = None\<rparr>],
        Logins = [\<lparr>timestamp = ''1689700000.5'', logoutTime = None,
                  userCode = ''h65ld310''\<rparr>]\<rparr>) =
   (Inl ExternalError, ([''h65ld310''],
      \<lparr>Users =
         [\<lparr>code = ''h65ld310'', firstName = ''John'', lastName = ''Buck'',
           email = ''jbuck@gmail.com'', status = Some ''Inactive''\<rparr>,
          \<lparr>code = ''d08ae169'', firstName = ''Jane'', lastName = ''Doe'',
           email = ''jdoe@gmail.com'', status = None\<rparr>],
        Logins = [\<lparr>timestamp = ''1689700000.5'', logoutTime = None,
                  userCode = ''h65ld310''\<rparr>]\<rparr>)) \<and>
   open_sessions ''h65ld310''
     (snd (snd (run_frames \<lparr>authorized_users = [''d08ae169'', ''h65ld310'']\<rparr>
        (\<lambda>f::nat. Some [Some ''h65ld310''])
        [\<lparr>frame = 0, now = ''1689700120.0'', shown = True\<rparr>]
        ([],
         \<lparr>Users =
            [\<lparr>code = ''h65ld310'', firstName = ''John'', lastName = ''Buck'',
              email = ''jbuck@gmail.com'', status = Some ''Inactive''\<rparr>,
             \<lparr>code = ''d08ae169'', firstName = ''Jane'', lastName = ''Doe'',
              email = ''jdoe@gmail.com'', status = None\<rparr>],
           Logins = [\<lparr>timestamp = ''1689700000.5'', logoutTime = None,
                     userCode = ''h65ld310''\<rparr>]\<rparr>)))) = 2"
  by (simp add: np_contains_def strip_nul_def session_inv_def status_of_def run_step_def process_qr_def
      log_qr_activity_def set_status_def get_info_def update_status_def login_def
      open_sessions_def)

section \<open>The values of the status column\<close>

lemma status_ok_update_status:
  assumes "status_ok db" and "s = ''Active'' \<or> s = ''Inactive''"
  shows "status_ok (update_status c s db)"
  using assms by (auto simp: status_ok_def update_status_def)

lemma set_status_status_ok:
  assumes "status_ok db"
  shows "status_ok (snd (set_status c db))"
  using assms
  by (auto simp: set_status_def status_ok_update_status split: option.splits)

lemma login_Users: "Users (snd (login t c db)) = Users db"
  by (simp add: login_def)

lemma logout_Users: "Users (snd (logout c t db)) = Users db"
  by (simp add: logout_def)

lemma status_ok_cong: "Users db' = Users db \<Longrightarrow> status_ok db' = status_ok db"
  by (simp add: status_ok_def)

lemma log_qr_activity_Users:
  "Users (snd (log_qr_activity sh (f, Some (c, t)) db)) = Users (snd (set_status c db))"
proof -
  obtain r db1 where s: "set_status c db = (r, db1)" by (cases "set_status c db")
  have li: "Users (snd (case login t c db1 of
                (Inl e, db2) \<Rightarrow> (Inl e, db2) | (Inr _, db2) \<Rightarrow> (Inr f, db2))) = Users db1"
    by (simp add: login_def)
  have lo: "Users (snd (case logout c t db1 of
                (Inl e, db2) \<Rightarrow> (Inl e, db2) | (Inr _, db2) \<Rightarrow> (Inr f, db2))) = Users db1"
    by (simp add: logout_def)
  show ?thesis
  proof (cases r)
    case (Inl e)
    then show ?thesis by (simp add: log_qr_activity_def s)
  next
    case (Inr st)
    then show ?thesis
      using li lo by (cases sh; cases "st = Some ''Active''") (simp_all add: log_qr_activity_def s)
  qed
qed

lemma log_qr_activity_status_ok:
  assumes "status_ok db"
  shows "status_ok (snd (log_qr_activity sh info db))"
proof (cases info)
  case (Pair f scan)
  show ?thesis
  proof (cases scan)
    case None
    with Pair assms show ?thesis by (simp add: log_qr_activity_no_scan)
  next
    case (Some ct)
    obtain c t where ct: "ct = (c, t)" by (cases ct)
    have "status_ok (snd (set_status c db))"
      using assms by (rule set_status_status_ok)
    then show ?thesis
      using status_ok_cong[OF log_qr_activity_Users[of sh f c t db]] Pair Some ct by simp
  qed
qed

lemma run_step_status_ok:
  assumes "status_ok db"
  shows "status_ok (snd (snd (run_step self decode t (recent, db))))"
proof (cases "process_qr self decode (now t) (frame t) recent")
  case (Pair r recent')
  show ?thesis
  proof (cases r)
    case (Inl e)
    with Pair assms show ?thesis by (simp add: run_step_def)
  next
    case (Inr info)
    with Pair log_qr_activity_status_ok[OF assms, of "shown t" info] show ?thesis
      by (cases "log_qr_activity (shown t) info db") (simp add: run_step_def)
  qed
qed

lemma run_frames_status_ok:
  assumes "status_ok (snd s)"
  shows "status_ok (snd (snd (run_frames self decode ticks s)))"
  using assms
proof (induction ticks arbitrary: s)
  case Nil
  then show ?case by simp
next
  case (Cons t ticks)
  obtain r s' where step: "run_step self decode t s = (r, s')"
    by (cases "run_step self decode t s")
  have "status_ok (snd s')"
    using run_step_status_ok[of "snd s" self decode t "fst s"] Cons.prems step by simp
  with Cons step show ?case by (cases r) simp_all
qed

lemma add_user_status_ok:
  assumes "status_ok db" and "st = None \<or> st = Some ''Active'' \<or> st = Some ''Inactive''"
  shows "status_ok (snd (add_user ok c f l e st db))"
  using assms by (auto simp: status_ok_def add_user_def Let_def)

lemma set_status_writes:
  "u' \<in> set (Users (snd (set_status c x))) \<Longrightarrow>
   u' \<in> set (Users x) \<or> status u' = Some ''Active'' \<or> status u' = Some ''Inactive''"
  by (auto simp: set_status_def update_status_def split: option.splits if_splits)

text \<open>
  Claim C10, as amended. \<^verbatim>\<open>set_status\<close> writes nothing but \<^verbatim>\<open>Active\<close> or \<^verbatim>\<open>Inactive\<close>:
  every row it leaves was there before or carries one of the two, and it returns one
  of the two or changes nothing. So when every stored status is null, \<^verbatim>\<open>Active\<close> or
  \<^verbatim>\<open>Inactive\<close>, that is still so after \<^verbatim>\<open>set_status\<close>, \<^verbatim>\<open>login\<close>, \<^verbatim>\<open>logout\<close>,
  \<^verbatim>\<open>log_qr_activity\<close> and any run of the scanning loop, and after \<^verbatim>\<open>add_user\<close> provided
  the status handed to it is one of the three; the constructor's two built-in users
  are stored with status null. \<^verbatim>\<open>add_user\<close> itself stores the status it is given.
\<close>

theorem stored_status_values:
  assumes "status_ok db"
  shows "status_ok (snd (set_status c db)) \<and>
         status_ok (snd (login t c db)) \<and>
         status_ok (snd (logout c t db)) \<and>
         status_ok (snd (log_qr_activity sh info db)) \<and>
         status_ok (snd (snd (run_frames self decode ticks (recent, db)))) \<and>
         (st = None \<or> st = Some ''Active'' \<or> st = Some ''Inactive'' \<longrightarrow>
            status_ok (snd (add_user ok c f l e st db))) \<and>
         status_ok (snd (Users_init ok1 ok2 empty_database)) \<and>
         (\<forall>u' \<in> set (Users (snd (set_status c x))).
            u' \<in> set (Users x) \<or> status u' = Some ''Active'' \<or> status u' = Some ''Inactive'') \<and>
         (fst (set_status c x) = Inr (Some ''Active'') \<or>
          fst (set_status c x) = Inr (Some ''Inactive'') \<or>
          snd (set_status c x) = x)"
proof -
  have init: "status_ok (snd (Users_init ok1 ok2 empty_database))"
    by (cases ok1; cases ok2)
       (simp_all add: Users_init_def add_user_def empty_database_def status_ok_def)
  have ret: "fst (set_status c x) = Inr (Some ''Active'') \<or>
          fst (set_status c x) = Inr (Some ''Inactive'') \<or>
          snd (set_status c x) = x"
    by (simp add: set_status_def split: option.splits)
  have li: "status_ok (snd (login t c db))"
    using assms status_ok_cong[OF login_Users[of t c db]] by simp
  have lo: "status_ok (snd (logout c t db))"
    using assms status_ok_cong[OF logout_Users[of c t db]] by simp
  have rf: "status_ok (snd (snd (run_frames self decode ticks (recent, db))))"
    using run_frames_status_ok[of "(recent, db)" self decode ticks] assms by simp
  have au: "st = None \<or> st = Some ''Active'' \<or> st = Some ''Inactive'' \<longrightarrow>
            status_ok (snd (add_user ok c f l e st db))"
    using add_user_status_ok[OF assms, of st ok c f l e] by (rule impI)
  have wr: "\<forall>u' \<in> set (Users (snd (set_status c x))).
            u' \<in> set (Users x) \<or> status u' = Some ''Active'' \<or> status u' = Some ''Inactive''"
    using set_status_writes[of _ c x] by (rule ballI)
  show ?thesis
    by (intro conjI)
       (rule set_status_status_ok[OF assms] li lo log_qr_activity_status_ok[OF assms]
          rf au init wr ret)+
qed

theorem stored_status_values_witness:
  "status_ok seeded_database \<and>
   status_of ''h65ld310'' (snd (set_status ''h65ld310'' seeded_database)) =
     Some (Some ''Active'') \<and>
   status_ok (snd (set_status ''h65ld310'' seeded_database)) \<and>
   status_ok (snd (add_user True ''k27pq905'' ''Ann'' ''Lee'' ''alee@gmail.com''
     (Some ''Inactive'') seeded_database))"
  using stored_status_values[of seeded_database "''h65ld310''" _ _ _ _ _ _ _
      "Some ''Inactive''" True]
  by (simp add: seeded_database_def status_ok_def status_of_def get_info_def set_status_def
      update_status_def add_user_def)

text \<open>Claim C10 as stated fails: \<^verbatim>\<open>add_user\<close> called with the status \<^verbatim>\<open>Suspended\<close>
  stores it.\<close>

theorem add_user_stores_any_status:
  "status_ok seeded_database \<and>
   status_of ''k27pq905''
     (snd (add_user True ''k27pq905'' ''Ann'' ''Lee'' ''alee@gmail.com'' (Some ''Suspended'')
        seeded_database)) = Some (Some ''Suspended'') \<and>
   \<not> status_ok
     (snd (add_user True ''k27pq905'' ''Ann'' ''Lee'' ''alee@gmail.com'' (Some ''Suspended'')
        seeded_database))"
  by (simp add: seeded_database_def status_ok_def status_of_def get_info_def add_user_def)

end
